theory Spec2Isabelle
  imports Main "HOL-Library.Sublist"
begin

section \<open>The language-model base module (llmagent/language_models/base.py)\<close>

text \<open>
  A shallow embedding of \<^verbatim>\<open>LanguageModel.create\<close>, the concurrent verbatim
  extractor, the summary-answer composer and the \<^verbatim>\<open>StreamingIfAllowed\<close> scope.
  The remote model is a parameter: a function from the prompt, the token limit and the
  state of the world to an outcome (a raised error or a response) and the next state.
  The prompt templates, which live in another module, are parameters as well.
  \<^verbatim>\<open>show_if_debug\<close> only prints and is left out.
\<close>

subsection \<open>Python strings\<close>

text \<open>
  A Python \<^verbatim>\<open>str\<close> is a sequence of Unicode code points; \<open>py\<close> reads an
  ASCII literal. \<open>isspace\<close> is the set of code points that \<^verbatim>\<open>str.isspace\<close>
  accepts, which is the set \<^verbatim>\<open>str.strip()\<close> removes.
\<close>

type_synonym pystr = "nat list"

definition py :: "string \<Rightarrow> pystr" where
  "py s = map of_char s"

definition isspace :: "nat \<Rightarrow> bool" where
  "isspace c =
     ((9 \<le> c \<and> c \<le> 13) \<or> (28 \<le> c \<and> c \<le> 32) \<or> c = 133 \<or> c = 160 \<or> c = 5760
      \<or> (8192 \<le> c \<and> c \<le> 8202) \<or> c = 8232 \<or> c = 8233 \<or> c = 8239 \<or> c = 8287
      \<or> c = 12288)"

definition lstrip :: "pystr \<Rightarrow> pystr" where
  "lstrip s = dropWhile isspace s"

definition rstrip :: "pystr \<Rightarrow> pystr" where
  "rstrip s = rev (dropWhile isspace (rev s))"

definition strip :: "pystr \<Rightarrow> pystr" where
  "strip s = rstrip (lstrip s)"

text \<open>\<^verbatim>\<open>s.find(sep)\<close>: the index of the leftmost occurrence of \<open>sep\<close> in \<open>s\<close>.\<close>

fun str_find :: "pystr \<Rightarrow> pystr \<Rightarrow> nat option" where
  "str_find sep [] = (if sep = [] then Some 0 else None)"
| "str_find sep (c # cs) =
     (if prefix sep (c # cs) then Some 0 else map_option Suc (str_find sep cs))"

text \<open>\<^verbatim>\<open>sep.join(parts)\<close>.\<close>

fun join :: "pystr \<Rightarrow> pystr list \<Rightarrow> pystr" where
  "join sep [] = []"
| "join sep [x] = x"
| "join sep (x # y # ys) = x @ sep @ join sep (y # ys)"

subsection \<open>Errors and values\<close>

text \<open>
  \<open>KeyError k\<close> is a failed dictionary lookup of the key \<open>k\<close>, \<open>ValueError\<close> is what
  \<^verbatim>\<open>str.split\<close> raises on an empty separator, \<open>AttributeError\<close> is a read of an
  attribute that was never set, and \<open>Raised tag\<close> is any exception coming out of the
  provider's calls.
\<close>

datatype error = KeyError pystr | ValueError | AttributeError pystr | Raised pystr

text \<open>\<^verbatim>\<open>s.split(sep, maxsplit=1)\<close>.\<close>

definition split1 :: "pystr \<Rightarrow> pystr \<Rightarrow> error + pystr list" where
  "split1 s sep =
     (if sep = [] then Inl ValueError
      else case str_find sep s of
             None \<Rightarrow> Inr [s]
           | Some i \<Rightarrow> Inr [take i s, drop (i + length sep) s])"

text \<open>The values kept in a metadata dictionary: strings and booleans.\<close>

datatype pyval = Str pystr | Bool bool

text \<open>What an f-string writes for a value: \<^verbatim>\<open>format(v)\<close>.\<close>

fun format :: "pyval \<Rightarrow> pystr" where
  "format (Str s) = s"
| "format (Bool b) = (if b then py ''True'' else py ''False'')"

subsection \<open>Data model\<close>

record RedisCacheConfig =
  hostname :: pystr
  port :: int

record LLMConfig =
  type :: pystr
  max_tokens :: int
  use_chat_for_completion :: bool
  stream :: bool
  cache_config :: RedisCacheConfig

record LLMResponse =
  message :: pystr
  usage :: int
  cached :: bool

text \<open>
  Modelled from the spec: the class \<^verbatim>\<open>Document\<close> of \<^verbatim>\<open>llmagent.mytypes\<close> is
  not part of this module. The spec has it as a text \<open>content\<close> and a \<open>metadata\<close>
  mapping from strings to values; the module reads \<^verbatim>\<open>p.content\<close>,
  \<^verbatim>\<open>p.metadata\<close> and \<^verbatim>\<open>p.metadata["source"]\<close> and builds
  \<^verbatim>\<open>Document(content=..., metadata=...)\<close>.
\<close>

record Document =
  content :: pystr
  metadata :: "pystr \<rightharpoonup> pyval"

text \<open>
  A call of the model: prompt, \<^verbatim>\<open>max_tokens\<close> and the state before the call
  give the outcome and the state after it. The state stands for everything the answer
  depends on (the remote service, the cache).
\<close>

type_synonym 's model_call = "pystr \<Rightarrow> int \<Rightarrow> 's \<Rightarrow> (error + LLMResponse) \<times> 's"

subsection \<open>\<^verbatim>\<open>LanguageModel.create\<close>\<close>

text \<open>
  \<^verbatim>\<open>cls = dict(openai=OpenAIGPT).get(config.type, OpenAIGPT); return cls(config)\<close>.
  The class \<open>OpenAIGPT\<close> and its constructor \<open>construct\<close> are defined in another
  module and are parameters here.
\<close>

definition registry :: "'cls \<Rightarrow> (pystr \<times> 'cls) list" where
  "registry OpenAIGPT = [(py ''openai'', OpenAIGPT)]"

definition dict_get :: "('k \<times> 'v) list \<Rightarrow> 'k \<Rightarrow> 'v \<Rightarrow> 'v" where
  "dict_get d k dflt = (case map_of d k of None \<Rightarrow> dflt | Some v \<Rightarrow> v)"

definition create_cls :: "'cls \<Rightarrow> LLMConfig \<Rightarrow> 'cls" where
  "create_cls OpenAIGPT config = dict_get (registry OpenAIGPT) (type config) OpenAIGPT"

definition create :: "'cls \<Rightarrow> ('cls \<Rightarrow> LLMConfig \<Rightarrow> 'r) \<Rightarrow> LLMConfig \<Rightarrow> 'r" where
  "create OpenAIGPT construct config = construct (create_cls OpenAIGPT config) config"

subsection \<open>The concurrent verbatim extractor\<close>

text \<open>
  \<open>template question content\<close> is
  \<^verbatim>\<open>EXTRACTION_PROMPT_GPT4.format(question=question, content=content)\<close>.
\<close>

definition get_verbatim_extract_async ::
  "'s model_call \<Rightarrow> (pystr \<Rightarrow> pystr \<Rightarrow> pystr) \<Rightarrow> pystr \<Rightarrow> Document \<Rightarrow> 's
     \<Rightarrow> (error + pystr) \<times> 's" where
  "get_verbatim_extract_async agenerate template question passage s =
     (let final_prompt = template question (content passage) in
      case agenerate final_prompt 1024 s of
        (Inl e, s') \<Rightarrow> (Inl e, s')
      | (Inr final_extract, s') \<Rightarrow> (Inr (strip (message final_extract)), s'))"

text \<open>
  \<^verbatim>\<open>asyncio.gather(*coros)\<close>. The event loop starts the tasks in the order of the
  arguments; \<open>run_all\<close> runs them in that order and keeps every outcome. With no
  argument there is nothing to run and the result is the empty list.
\<close>

fun run_all :: "('s \<Rightarrow> (error + 'a) \<times> 's) list \<Rightarrow> 's \<Rightarrow> (error + 'a) list \<times> 's" where
  "run_all [] s = ([], s)"
| "run_all (c # cs) s =
     (case c s of (r, s1) \<Rightarrow> (case run_all cs s1 of (rs, s2) \<Rightarrow> (r # rs, s2)))"

text \<open>
  Which exception \<^verbatim>\<open>gather\<close> hands to its awaiter is decided by the order in which
  the tasks finish: the first one raised. \<open>order\<close> lists task indices in the order
  of completion; tasks it does not list finish after the listed ones, in the order of
  the arguments.
\<close>

definition completion :: "nat list \<Rightarrow> 'b list \<Rightarrow> 'b list" where
  "completion order outs = map (nth outs) (filter (\<lambda>i. i < length outs) order) @ outs"

fun first_exception :: "(error + 'a) list \<Rightarrow> error option" where
  "first_exception [] = None"
| "first_exception (Inl e # rs) = Some e"
| "first_exception (Inr v # rs) = first_exception rs"

fun results :: "(error + 'a) list \<Rightarrow> 'a list" where
  "results [] = []"
| "results (Inl e # rs) = results rs"
| "results (Inr v # rs) = v # results rs"

definition gather ::
  "nat list \<Rightarrow> ('s \<Rightarrow> (error + 'a) \<times> 's) list \<Rightarrow> 's \<Rightarrow> (error + 'a list) \<times> 's" where
  "gather order coros s =
     (case run_all coros s of
        (outs, s') \<Rightarrow>
          (case first_exception (completion order outs) of
             Some e \<Rightarrow> (Inl e, s')
           | None \<Rightarrow> (Inr (results outs), s')))"

text \<open>The coroutine \<^verbatim>\<open>_get_verbatim_extracts\<close>.\<close>

definition get_verbatim_extracts_coro ::
  "'s model_call \<Rightarrow> (pystr \<Rightarrow> pystr \<Rightarrow> pystr) \<Rightarrow> nat list \<Rightarrow> pystr \<Rightarrow> Document list \<Rightarrow> 's
     \<Rightarrow> (error + Document list) \<times> 's" where
  "get_verbatim_extracts_coro agenerate template order question passages s =
     (case gather order
             (map (\<lambda>P. get_verbatim_extract_async agenerate template question P) passages) s of
        (Inl e, s') \<Rightarrow> (Inl e, s')
      | (Inr verbatim_extracts, s') \<Rightarrow>
          (let metadatas = map (\<lambda>P. metadata P) passages in
           (Inr (map (\<lambda>(e, m). \<lparr>content = e, metadata = m\<rparr>) (zip verbatim_extracts metadatas)),
            s')))"

text \<open>
  \<^verbatim>\<open>get_verbatim_extracts\<close>: \<^verbatim>\<open>asyncio.run\<close> of the coroutine, called where
  no event loop is running yet: it returns what the coroutine returns and raises what
  the coroutine raises.
\<close>

definition get_verbatim_extracts ::
  "'s model_call \<Rightarrow> (pystr \<Rightarrow> pystr \<Rightarrow> pystr) \<Rightarrow> nat list \<Rightarrow> pystr \<Rightarrow> Document list \<Rightarrow> 's
     \<Rightarrow> (error + Document list) \<times> 's" where
  "get_verbatim_extracts agenerate template order question passages s =
     (let docs = get_verbatim_extracts_coro agenerate template order question passages s
      in docs)"

text \<open>
  The outcomes of the per-passage calls of one run, in the order of the passages: what
  each \<^verbatim>\<open>get_verbatim_extract_async\<close> returned or raised.
\<close>

definition extract_outcomes ::
  "'s model_call \<Rightarrow> (pystr \<Rightarrow> pystr \<Rightarrow> pystr) \<Rightarrow> pystr \<Rightarrow> Document list \<Rightarrow> 's
     \<Rightarrow> (error + pystr) list" where
  "extract_outcomes agenerate template question passages s =
     fst (run_all (map (\<lambda>P. get_verbatim_extract_async agenerate template question P) passages) s)"

text \<open>
  A model that keeps a log of the prompts it was called with, next to the state of the
  model it wraps.
\<close>

definition logged :: "'s model_call \<Rightarrow> (pystr list \<times> 's) model_call" where
  "logged agenerate prompt n ls =
     (case ls of (log, s) \<Rightarrow>
        (case agenerate prompt n s of (r, s') \<Rightarrow> (r, (log @ [prompt], s'))))"

subsection \<open>The summary-answer composer\<close>

text \<open>
  The f-string of \<^verbatim>\<open>stringify_passages\<close>: a newline and sixteen blanks,
  \<^verbatim>\<open>Extract: \<close> and the content, a newline and sixteen blanks, \<^verbatim>\<open>Source: \<close>
  and \<^verbatim>\<open>metadata["source"]\<close>, a newline and sixteen blanks. The lookup raises
  \<^verbatim>\<open>KeyError\<close> on a passage without the key.
\<close>

definition indent :: pystr where
  "indent = 10 # replicate 16 32"

definition stringify_passage :: "Document \<Rightarrow> error + pystr" where
  "stringify_passage p =
     (case metadata p (py ''source'') of
        None \<Rightarrow> Inl (KeyError (py ''source''))
      | Some v \<Rightarrow>
          Inr (indent @ py ''Extract: '' @ content p @ indent @ py ''Source: '' @ format v
               @ indent))"

text \<open>The list comprehension: the first passage that raises ends it.\<close>

fun stringify_each :: "Document list \<Rightarrow> error + pystr list" where
  "stringify_each [] = Inr []"
| "stringify_each (p # ps) =
     (case stringify_passage p of
        Inl e \<Rightarrow> Inl e
      | Inr x \<Rightarrow> (case stringify_each ps of Inl e \<Rightarrow> Inl e | Inr xs \<Rightarrow> Inr (x # xs)))"

definition stringify_passages :: "Document list \<Rightarrow> error + pystr" where
  "stringify_passages passages =
     (case stringify_each passages of Inl e \<Rightarrow> Inl e | Inr xs \<Rightarrow> Inr (join [10] xs))"

text \<open>
  \<open>template question extracts\<close> is
  \<^verbatim>\<open>SUMMARY_ANSWER_PROMPT_GPT4.format(question=question, extracts=extracts)\<close>.
\<close>

definition get_summary_answer ::
  "'s model_call \<Rightarrow> (pystr \<Rightarrow> pystr \<Rightarrow> pystr) \<Rightarrow> pystr \<Rightarrow> Document list \<Rightarrow> 's
     \<Rightarrow> (error + Document) \<times> 's" where
  "get_summary_answer generate template question passages s =
     (case stringify_passages passages of
        Inl e \<Rightarrow> (Inl e, s)
      | Inr passages' \<Rightarrow>
          (let final_prompt = template (py ''Question:'' @ question) passages' in
           case generate final_prompt 1024 s of
             (Inl e, s') \<Rightarrow> (Inl e, s')
           | (Inr llm_response, s') \<Rightarrow>
               (let final_answer = strip (message llm_response) in
                case split1 final_answer (py ''SOURCE:'') of
                  Inl e \<Rightarrow> (Inl e, s')
                | Inr parts \<Rightarrow>
                    (let (content', sources) =
                           (if length parts > 1
                            then (strip (parts ! 0), strip (parts ! 1))
                            else (final_answer, []))
                     in (Inr \<lparr>content = content',
                              metadata = [py ''source'' \<mapsto> Str (py ''SOURCE: '' @ sources),
                                          py ''cached'' \<mapsto> Bool (cached llm_response)]\<rparr>,
                         s')))))"

subsection \<open>The streaming scope\<close>

text \<open>
  Modelled from the spec: the provider class that implements the abstract
  \<^verbatim>\<open>set_stream\<close> and \<^verbatim>\<open>get_stream\<close> of \<^verbatim>\<open>LanguageModel\<close> is not part
  of this module. The spec calls the stream flag the only mutable state of a model
  instance; the instance is a record with the flag, and whatever else it holds is the
  record's extension.
\<close>

record llm_instance =
  stream_flag :: bool

text \<open>
  Modelled from the spec: \<^verbatim>\<open>set_stream(bool) -> bool\<close> enables or disables
  streaming and returns the previous value of the flag (the docstring of the abstract
  method says the same).
\<close>

definition set_stream :: "bool \<Rightarrow> 'a llm_instance_scheme \<Rightarrow> bool \<times> 'a llm_instance_scheme" where
  "set_stream b llm = (stream_flag llm, llm\<lparr>stream_flag := b\<rparr>)"

text \<open>Modelled from the spec: \<^verbatim>\<open>get_stream() -> bool\<close> returns the flag.\<close>

definition get_stream :: "'a llm_instance_scheme \<Rightarrow> bool" where
  "get_stream llm = stream_flag llm"

text \<open>
  The context manager holds the desired flag and, once entered, the previous value.
  Its \<^verbatim>\<open>llm\<close> attribute is a reference to the model instance, which is the state
  passed along here.
\<close>

record StreamingIfAllowed =
  stream :: bool
  old_stream :: "bool option"

definition init :: "bool \<Rightarrow> StreamingIfAllowed" where
  "init stream' = \<lparr>stream = stream', old_stream = None\<rparr>"

text \<open>\<open>settings_stream\<close> is the global \<^verbatim>\<open>settings.stream\<close>.\<close>

definition enter ::
  "bool \<Rightarrow> StreamingIfAllowed \<Rightarrow> 'a llm_instance_scheme
     \<Rightarrow> StreamingIfAllowed \<times> 'a llm_instance_scheme" where
  "enter settings_stream self llm =
     (case set_stream (settings_stream \<and> StreamingIfAllowed.stream self) llm of
        (old, llm') \<Rightarrow> (self\<lparr>old_stream := Some old\<rparr>, llm'))"

definition exit ::
  "StreamingIfAllowed \<Rightarrow> 'a llm_instance_scheme \<Rightarrow> error + 'a llm_instance_scheme" where
  "exit self llm =
     (case old_stream self of
        None \<Rightarrow> Inl (AttributeError (py ''old_stream''))
      | Some old \<Rightarrow> Inr (snd (set_stream old llm)))"

text \<open>
  \<^verbatim>\<open>with StreamingIfAllowed(llm, stream): body\<close>. The body returns a value or raises,
  and may change the model instance. \<^verbatim>\<open>__exit__\<close> runs on both paths and returns
  \<^verbatim>\<open>None\<close>, so an exception of the body goes on to the caller.
\<close>

definition with_StreamingIfAllowed ::
  "bool \<Rightarrow> bool \<Rightarrow> ('a llm_instance_scheme \<Rightarrow> (error + 'r) \<times> 'a llm_instance_scheme)
     \<Rightarrow> 'a llm_instance_scheme \<Rightarrow> (error + 'r) \<times> 'a llm_instance_scheme" where
  "with_StreamingIfAllowed settings_stream stream' body llm =
     (case enter settings_stream (init stream') llm of
        (self, llm1) \<Rightarrow>
          (case body llm1 of
             (r, llm2) \<Rightarrow>
               (case exit self llm2 of
                  Inl e \<Rightarrow> (Inl e, llm2)
                | Inr llm3 \<Rightarrow> (r, llm3))))"

subsection \<open>Example inputs\<close>

text \<open>
  Mocked collaborators for the concrete instances below: a template that puts its two
  arguments on two lines, a model that answers every prompt with the same text, a
  model whose \<open>k\<close>-th answer is \<^verbatim>\<open>fact-k\<close> wrapped in white space, and one
  whose second call raises, and a model that answers with its prompt wrapped in white
  space. Their state counts the calls.
\<close>

definition mock_template :: "pystr \<Rightarrow> pystr \<Rightarrow> pystr" where
  "mock_template a b = a @ [10] @ b"

definition const_model :: "pystr \<Rightarrow> nat model_call" where
  "const_model text prompt n k = (Inr \<lparr>message = text, usage = 1, cached = False\<rparr>, Suc k)"

definition fact_model :: "nat model_call" where
  "fact_model prompt n k =
     (Inr \<lparr>message = [32] @ py ''fact-'' @ [49 + k] @ [10], usage = 1, cached = False\<rparr>, Suc k)"

definition flaky_model :: "nat model_call" where
  "flaky_model prompt n k =
     (if k = 1 then (Inl (Raised (py ''timeout'')), Suc k) else fact_model prompt n k)"

definition echo_model :: "nat model_call" where
  "echo_model prompt n k =
     (Inr \<lparr>message = [32] @ prompt @ [9, 10], usage = 1, cached = False\<rparr>, Suc k)"

definition three_passages :: "Document list" where
  "three_passages =
     [\<lparr>content = py ''first'', metadata = [py ''source'' \<mapsto> Str (py ''Doc1'')]\<rparr>,
      \<lparr>content = py ''second'', metadata = [py ''source'' \<mapsto> Str (py ''Doc2'')]\<rparr>,
      \<lparr>content = py ''third'', metadata = [py ''page'' \<mapsto> Str (py ''7'')]\<rparr>]"

definition two_passages :: "Document list" where
  "two_passages = take 2 three_passages"

section \<open>Properties\<close>

subsection \<open>Strings\<close>

lemma strip_decomp: "\<exists>w. lstrip s = strip s @ w"
proof -
  have "rev (lstrip s) = takeWhile isspace (rev (lstrip s)) @ dropWhile isspace (rev (lstrip s))"
    by simp
  then have "lstrip s =
      rev (dropWhile isspace (rev (lstrip s))) @ rev (takeWhile isspace (rev (lstrip s)))"
    by (metis rev_append rev_rev_ident)
  then show ?thesis by (auto simp: strip_def rstrip_def)
qed

lemma strip_hd: "strip s \<noteq> [] \<Longrightarrow> \<not> isspace (hd (strip s))"
proof -
  assume ne: "strip s \<noteq> []"
  obtain w where w: "lstrip s = strip s @ w" using strip_decomp by blast
  with ne have "lstrip s \<noteq> []" by simp
  then have "\<not> isspace (hd (lstrip s))" unfolding lstrip_def by (rule hd_dropWhile)
  with w ne show ?thesis by simp
qed

lemma strip_last: "strip s \<noteq> [] \<Longrightarrow> \<not> isspace (last (strip s))"
proof -
  assume ne: "strip s \<noteq> []"
  then have "dropWhile isspace (rev (lstrip s)) \<noteq> []" by (simp add: strip_def rstrip_def)
  then have "\<not> isspace (hd (dropWhile isspace (rev (lstrip s))))" by (rule hd_dropWhile)
  with ne show ?thesis by (simp add: strip_def rstrip_def last_rev)
qed

lemma str_find_None: "(str_find sep s = None) = (\<not> sublist sep s)"
proof (induction s)
  case Nil
  then show ?case by simp
next
  case (Cons c cs)
  then show ?case by (simp add: sublist_Cons_right)
qed

lemma prefix_short:
  assumes "prefix xs (ys @ zs)" and "length xs \<le> length ys"
  shows "prefix xs ys"
proof -
  have "prefix ys (ys @ zs)" by simp
  with assms show ?thesis using prefix_length_prefix by blast
qed

text \<open>
  When \<open>sep\<close> stands right after \<open>a\<close> and no occurrence of it starts earlier,
  \<open>str_find\<close> returns the length of \<open>a\<close>.
\<close>

lemma str_find_first:
  assumes "sep \<noteq> []" and "\<not> sublist sep (a @ butlast sep)"
  shows "str_find sep (a @ sep @ b) = Some (length a)"
  using assms(2)
proof (induction a)
  case Nil
  from assms(1) obtain c cs where "sep @ b = c # cs" by (cases sep) auto
  moreover have "prefix sep (sep @ b)" by simp
  ultimately show ?case by simp
next
  case (Cons x a)
  have "\<not> prefix sep (x # a @ sep @ b)"
  proof
    assume p: "prefix sep (x # a @ sep @ b)"
    have "x # a @ sep @ b = ((x # a) @ butlast sep) @ (last sep # b)"
      using assms(1) by simp
    moreover have "length sep \<le> length ((x # a) @ butlast sep)" by simp
    ultimately have "prefix sep ((x # a) @ butlast sep)" using p prefix_short by metis
    then have "sublist sep ((x # a) @ butlast sep)" by (rule prefix_imp_sublist)
    with Cons.prems show False by simp
  qed
  moreover have "\<not> sublist sep (a @ butlast sep)"
    using Cons.prems by (auto simp: sublist_Cons_right)
  then have "str_find sep (a @ sep @ b) = Some (length a)" by (rule Cons.IH)
  ultimately show ?case by simp
qed

lemma first_occurrence_exists:
  assumes "sep \<noteq> []" and "sublist sep s"
  shows "\<exists>a b. s = a @ sep @ b \<and> \<not> sublist sep (a @ butlast sep)"
  using assms(2)
proof (induction s)
  case Nil
  with assms(1) show ?case by simp
next
  case (Cons c cs)
  show ?case
  proof (cases "prefix sep (c # cs)")
    case True
    then obtain b where "c # cs = [] @ sep @ b" by (auto simp: prefix_def)
    moreover have "\<not> sublist sep ([] @ butlast sep)"
    proof
      assume "sublist sep ([] @ butlast sep)"
      then have "length sep \<le> length (butlast sep)" using sublist_length_le by fastforce
      with assms(1) show False by (cases sep rule: rev_cases) auto
    qed
    ultimately show ?thesis by blast
  next
    case False
    with Cons.prems have "sublist sep cs" by (simp add: sublist_Cons_right)
    from Cons.IH [OF this] obtain a b where
      ab: "cs = a @ sep @ b" "\<not> sublist sep (a @ butlast sep)" by blast
    have "\<not> prefix sep (c # a @ butlast sep)"
    proof
      assume "prefix sep (c # a @ butlast sep)"
      then have "prefix sep ((c # a @ butlast sep) @ (last sep # b))"
        using prefix_prefix by blast
      moreover have "(c # a @ butlast sep) @ (last sep # b) = c # cs"
        using ab(1) assms(1) by simp
      ultimately show False using False by simp
    qed
    with ab(2) have "\<not> sublist sep ((c # a) @ butlast sep)"
      by (simp add: sublist_Cons_right)
    moreover have "c # cs = (c # a) @ sep @ b" using ab(1) by simp
    ultimately show ?thesis by blast
  qed
qed

lemma split1_found:
  assumes "sep \<noteq> []" and "\<not> sublist sep (a @ butlast sep)"
  shows "split1 (a @ sep @ b) sep = Inr [a, b]"
  using assms by (simp add: split1_def str_find_first)

lemma split1_absent:
  assumes "sep \<noteq> []" and "\<not> sublist sep s"
  shows "split1 s sep = Inr [s]"
proof -
  from assms(2) have "str_find sep s = None" by (simp add: str_find_None)
  with assms(1) show ?thesis by (simp add: split1_def)
qed

lemma marker_ne: "py ''SOURCE:'' \<noteq> []"
  by (simp add: py_def)

subsection \<open>Running the gathered calls\<close>

lemma run_all_Cons:
  "run_all (c # cs) s =
     (fst (c s) # fst (run_all cs (snd (c s))), snd (run_all cs (snd (c s))))"
  by (simp split: prod.splits)

lemma length_run_all: "length (fst (run_all cs s)) = length cs"
  by (induction cs arbitrary: s) (simp_all add: run_all_Cons del: run_all.simps(2))

lemma first_exception_None: "(first_exception xs = None) = (\<forall>x \<in> set xs. \<not> isl x)"
  by (induction xs rule: first_exception.induct) auto

lemma first_exception_Some: "first_exception xs = Some e \<Longrightarrow> Inl e \<in> set xs"
  by (induction xs rule: first_exception.induct) auto

lemma set_completion: "set (completion order outs) = set outs"
  by (auto simp: completion_def)

lemma results_all_Inr: "\<forall>x \<in> set outs. \<not> isl x \<Longrightarrow> map Inr (results outs) = outs"
  by (induction outs rule: results.induct) auto

lemma length_results: "\<forall>x \<in> set outs. \<not> isl x \<Longrightarrow> length (results outs) = length outs"
  by (induction outs rule: results.induct) auto

lemma gather_cases:
  "gather order coros s =
     (if \<forall>x \<in> set (fst (run_all coros s)). \<not> isl x
      then (Inr (results (fst (run_all coros s))), snd (run_all coros s))
      else (Inl (the (first_exception (completion order (fst (run_all coros s))))),
            snd (run_all coros s)))"
proof (cases "run_all coros s")
  case (Pair outs s')
  show ?thesis
  proof (cases "first_exception (completion order outs)")
    case None
    then have "\<forall>x \<in> set outs. \<not> isl x"
      by (simp add: first_exception_None set_completion)
    with Pair None show ?thesis by (simp add: gather_def)
  next
    case (Some e)
    then have "Inl e \<in> set outs"
      using first_exception_Some set_completion by fastforce
    then have "\<not> (\<forall>x \<in> set outs. \<not> isl x)" by force
    with Pair Some show ?thesis by (simp add: gather_def)
  qed
qed

text \<open>The \<open>i\<close>-th outcome is that of the \<open>i\<close>-th call, made in the state the calls before it left.\<close>

lemma run_all_nth:
  "i < length ps \<Longrightarrow>
   fst (run_all (map f ps) s) ! i = fst (f (ps ! i) (snd (run_all (map f (take i ps)) s)))"
proof (induction ps arbitrary: s i)
  case Nil
  then show ?case by simp
next
  case (Cons p ps)
  show ?case
  proof (cases i)
    case 0
    then show ?thesis by (simp add: run_all_Cons del: run_all.simps(2))
  next
    case (Suc j)
    with Cons.prems have "j < length ps" by simp
    from Cons.IH [OF this] Suc show ?thesis
      by (simp add: run_all_Cons del: run_all.simps(2))
  qed
qed

lemma gve_success:
  assumes "\<forall>out \<in> set (extract_outcomes agenerate template question passages s). \<not> isl out"
  shows "fst (get_verbatim_extracts agenerate template order question passages s)
           = Inr (map (\<lambda>(e, m). \<lparr>content = e, metadata = m\<rparr>)
                   (zip (results (extract_outcomes agenerate template question passages s))
                        (map metadata passages)))"
  using assms
  by (simp add: get_verbatim_extracts_def get_verbatim_extracts_coro_def gather_cases
      extract_outcomes_def)

lemma gve_failure:
  assumes "\<not> (\<forall>out \<in> set (extract_outcomes agenerate template question passages s). \<not> isl out)"
  shows "fst (get_verbatim_extracts agenerate template order question passages s)
           = Inl (the (first_exception (completion order
                   (extract_outcomes agenerate template question passages s))))"
  using assms
  by (simp add: get_verbatim_extracts_def get_verbatim_extracts_coro_def gather_cases
      extract_outcomes_def)

lemma length_extract_outcomes:
  "length (extract_outcomes agenerate template question passages s) = length passages"
  by (simp add: extract_outcomes_def length_run_all)

lemma gvea_Inr:
  "fst (get_verbatim_extract_async agenerate template question P s) = Inr x \<Longrightarrow>
   \<exists>r s'. agenerate (template question (content P)) 1024 s = (Inr r, s') \<and> x = strip (message r)"
  by (auto simp: get_verbatim_extract_async_def Let_def split: prod.splits sum.splits)

subsection \<open>Rendering the passages\<close>

lemma stringify_each_missing:
  "\<exists>p \<in> set passages. metadata p (py ''source'') = None
   \<Longrightarrow> stringify_each passages = Inl (KeyError (py ''source''))"
proof (induction passages)
  case Nil
  then show ?case by simp
next
  case (Cons p ps)
  show ?case
  proof (cases "metadata p (py ''source'')")
    case None
    then show ?thesis by (simp add: stringify_passage_def)
  next
    case (Some v)
    with Cons.prems have "\<exists>p \<in> set ps. metadata p (py ''source'') = None" by auto
    then have "stringify_each ps = Inl (KeyError (py ''source''))" by (rule Cons.IH)
    with Some show ?thesis by (simp add: stringify_passage_def)
  qed
qed

lemmas example_defs =
  mock_template_def const_model_def fact_model_def flaky_model_def echo_model_def
  three_passages_def
  two_passages_def

lemmas string_defs = py_def strip_def lstrip_def rstrip_def isspace_def

subsection \<open>The example inputs, evaluated\<close>

lemma fact_outcomes:
  "extract_outcomes fact_model mock_template (py ''q'') three_passages 0
     = [Inr (py ''fact-1''), Inr (py ''fact-2''), Inr (py ''fact-3'')]"
  by (simp add: extract_outcomes_def get_verbatim_extract_async_def example_defs string_defs)

lemma echo_outcomes:
  "extract_outcomes echo_model mock_template (py ''q'') three_passages 0
     = [Inr (py ''q'' @ [10] @ py ''first''), Inr (py ''q'' @ [10] @ py ''second''),
        Inr (py ''q'' @ [10] @ py ''third'')]"
  by (simp add: extract_outcomes_def get_verbatim_extract_async_def example_defs string_defs)

lemma flaky_outcomes:
  "extract_outcomes flaky_model mock_template (py ''q'') three_passages 0
     = [Inr (py ''fact-1''), Inl (Raised (py ''timeout'')), Inr (py ''fact-3'')]"
  by (simp add: extract_outcomes_def get_verbatim_extract_async_def example_defs string_defs)

lemma two_passages_render: "\<exists>extracts. stringify_passages two_passages = Inr extracts"
  by (simp add: stringify_passages_def stringify_passage_def example_defs py_def)

lemma answer_text_stripped:
  "strip (py ''...answer text...SOURCE: Doc1, Doc2'')
     = py ''...answer text...'' @ py ''SOURCE:'' @ py '' Doc1, Doc2''"
  by (simp add: string_defs)

lemma answer_text_first:
  "\<not> sublist (py ''SOURCE:'') (py ''...answer text...'' @ butlast (py ''SOURCE:''))"
  by (simp add: py_def sublist_Cons_right)

lemma plain_answer_stripped: "strip (py ''  I do not know. '' @ [10]) = py ''I do not know.''"
  by (simp add: string_defs)

section \<open>The claims\<close>

subsection \<open>The concurrent verbatim extractor\<close>

text \<open>
  Claim C1. When each of the per-passage calls returns, \<open>get_verbatim_extracts\<close>
  returns a list of Documents of the same length as the passages, in the same order:
  the \<open>i\<close>-th Document carries the metadata of the \<open>i\<close>-th passage, unchanged,
  and its content is the extract that the call for the \<open>i\<close>-th passage returned
  (the contents, in order, are the outcomes of the calls, in the order of the
  passages). This holds for every list of passages, so for every non-empty one, and
  for every order in which the calls complete.
\<close>

theorem get_verbatim_extracts_length_order_metadata:
  assumes "\<forall>out \<in> set (extract_outcomes agenerate template question passages s). \<not> isl out"
  shows "\<exists>docs. fst (get_verbatim_extracts agenerate template order question passages s) = Inr docs
           \<and> length docs = length passages
           \<and> map metadata docs = map metadata passages
           \<and> map (\<lambda>d. Inr (content d)) docs
               = extract_outcomes agenerate template question passages s
           \<and> (\<forall>i < length passages.
                 metadata (docs ! i) = metadata (passages ! i)
                 \<and> Inr (content (docs ! i))
                     = fst (get_verbatim_extract_async agenerate template question (passages ! i)
                         (snd (run_all
                            (map (get_verbatim_extract_async agenerate template question)
                               (take i passages)) s))))"
proof -
  let ?f = "get_verbatim_extract_async agenerate template question"
  let ?outs = "extract_outcomes agenerate template question passages s"
  let ?docs = "map (\<lambda>(e, m). \<lparr>content = e, metadata = m\<rparr>)
                 (zip (results ?outs) (map metadata passages))"
  have len: "length (results ?outs) = length passages"
    using assms by (simp add: length_results length_extract_outcomes)
  have r: "fst (get_verbatim_extracts agenerate template order question passages s) = Inr ?docs"
    using assms by (rule gve_success)
  have l: "length ?docs = length passages" using len by simp
  have m: "map metadata ?docs = map metadata passages"
    using len by (intro nth_equalityI) simp_all
  have rs: "map Inr (results ?outs) = ?outs"
    using assms by (rule results_all_Inr)
  have "map (\<lambda>d. Inr (content d)) ?docs = (map Inr (results ?outs) :: (error + pystr) list)"
    using len by (intro nth_equalityI) simp_all
  then have c: "map (\<lambda>d. Inr (content d)) ?docs = ?outs"
    by (simp only: rs)
  have "metadata (?docs ! i) = metadata (passages ! i)
        \<and> Inr (content (?docs ! i)) = fst (?f (passages ! i) (snd (run_all (map ?f (take i passages)) s)))"
    if i: "i < length passages" for i
  proof -
    have ci: "content (?docs ! i) = results ?outs ! i" using len i by simp
    have "map Inr (results ?outs) ! i = ?outs ! i" by (simp only: rs)
    then have "?outs ! i = Inr (results ?outs ! i)" using len i by simp
    with ci have "Inr (content (?docs ! i)) = ?outs ! i" by simp
    moreover have "?outs ! i = fst (?f (passages ! i) (snd (run_all (map ?f (take i passages)) s)))"
      unfolding extract_outcomes_def using i by (rule run_all_nth)
    moreover have "metadata (?docs ! i) = metadata (passages ! i)" using len i by simp
    ultimately show ?thesis by simp
  qed
  with r l m c show ?thesis by blast
qed

theorem get_verbatim_extracts_length_order_metadata_witness:
  "extract_outcomes echo_model mock_template (py ''q'') three_passages 0
     = [Inr (py ''q'' @ [10] @ py ''first''), Inr (py ''q'' @ [10] @ py ''second''),
        Inr (py ''q'' @ [10] @ py ''third'')]
   \<and> (\<exists>docs. fst (get_verbatim_extracts echo_model mock_template [2, 0, 1] (py ''q'')
                     three_passages 0) = Inr docs
        \<and> length docs = 3
        \<and> map metadata docs = map metadata three_passages
        \<and> map content docs
            = [py ''q'' @ [10] @ py ''first'', py ''q'' @ [10] @ py ''second'',
               py ''q'' @ [10] @ py ''third''])"
proof -
  have h: "\<forall>out \<in> set (extract_outcomes echo_model mock_template (py ''q'') three_passages 0).
             \<not> isl out"
    by (simp add: echo_outcomes)
  have n: "length three_passages = 3" by (simp add: three_passages_def)
  from get_verbatim_extracts_length_order_metadata [OF h, of "[2, 0, 1]"] obtain docs where
    d: "fst (get_verbatim_extracts echo_model mock_template [2, 0, 1] (py ''q'')
               three_passages 0) = Inr docs"
       "length docs = length three_passages"
       "map metadata docs = map metadata three_passages"
       "map (\<lambda>d. Inr (content d)) docs
          = extract_outcomes echo_model mock_template (py ''q'') three_passages 0"
    by blast
  from d(4) have "map (\<lambda>d. Inr (content d) :: error + pystr) docs
      = [Inr (py ''q'' @ [10] @ py ''first''), Inr (py ''q'' @ [10] @ py ''second''),
         Inr (py ''q'' @ [10] @ py ''third'')]"
    by (simp only: echo_outcomes)
  then have "map content docs
      = [py ''q'' @ [10] @ py ''first'', py ''q'' @ [10] @ py ''second'',
         py ''q'' @ [10] @ py ''third'']"
    by (auto simp: map_eq_Cons_conv)
  with d(1,2,3) n echo_outcomes show ?thesis by auto
qed

text \<open>
  Claim C2. When one of the per-passage calls raises, \<open>get_verbatim_extracts\<close> as a
  whole fails: its result is an error, one that a call raised, and so no list of
  Documents, not even a partial one. This holds whatever the other calls return and in
  whatever order they complete.
\<close>

theorem get_verbatim_extracts_any_failure_fails:
  assumes "\<exists>out \<in> set (extract_outcomes agenerate template question passages s). isl out"
  shows "\<exists>e. fst (get_verbatim_extracts agenerate template order question passages s) = Inl e
           \<and> Inl e \<in> set (extract_outcomes agenerate template question passages s)"
proof -
  let ?outs = "extract_outcomes agenerate template question passages s"
  from assms have n: "\<not> (\<forall>out \<in> set ?outs. \<not> isl out)" by blast
  then have "first_exception (completion order ?outs) \<noteq> None"
    by (simp add: first_exception_None set_completion)
  then obtain e where e: "first_exception (completion order ?outs) = Some e" by blast
  then have "Inl e \<in> set ?outs" using first_exception_Some set_completion by fastforce
  moreover have "fst (get_verbatim_extracts agenerate template order question passages s) = Inl e"
    using gve_failure [OF n] e by simp
  ultimately show ?thesis by blast
qed

theorem get_verbatim_extracts_any_failure_fails_witness:
  "extract_outcomes flaky_model mock_template (py ''q'') three_passages 0
     = [Inr (py ''fact-1''), Inl (Raised (py ''timeout'')), Inr (py ''fact-3'')]
   \<and> fst (get_verbatim_extracts flaky_model mock_template [0, 2, 1] (py ''q'') three_passages 0)
       = Inl (Raised (py ''timeout''))"
proof -
  have h: "\<exists>out \<in> set (extract_outcomes flaky_model mock_template (py ''q'') three_passages 0).
             isl out"
    by (simp add: flaky_outcomes)
  from get_verbatim_extracts_any_failure_fails [OF h, of "[0, 2, 1]"] flaky_outcomes
  show ?thesis by auto
qed

text \<open>
  Claim C9. For the empty list of passages \<open>get_verbatim_extracts\<close> returns the empty
  list and calls the model not once: the state of the model is the one before, and a
  model that logs its prompts has its log unchanged.
\<close>

theorem get_verbatim_extracts_empty:
  "get_verbatim_extracts agenerate template order question [] s = (Inr [], s)
   \<and> get_verbatim_extracts (logged agenerate) template order question [] (log, s)
       = (Inr [], (log, s))"
  by (simp add: get_verbatim_extracts_def get_verbatim_extracts_coro_def gather_def
      completion_def)

theorem get_verbatim_extracts_empty_witness:
  "get_verbatim_extracts (logged fact_model) mock_template [] (py ''q'') [] ([], 0)
     = (Inr [], ([], 0))"
  using get_verbatim_extracts_empty [of "logged fact_model" mock_template "[]" "py ''q''"
      "([] :: pystr list, 0 :: nat)"]
  by simp

text \<open>
  Claim C10. When each of the per-passage calls returns, the content of the \<open>i\<close>-th
  Document returned by \<open>get_verbatim_extracts\<close> is the stripped message of the
  response the model gave to the prompt of the \<open>i\<close>-th passage (in the state the
  calls before it left), so it neither starts nor ends with white space.
\<close>

theorem get_verbatim_extracts_content_stripped:
  assumes "\<forall>out \<in> set (extract_outcomes agenerate template question passages s). \<not> isl out"
    and "i < length passages"
  shows "\<exists>docs. fst (get_verbatim_extracts agenerate template order question passages s) = Inr docs
         \<and> (\<exists>r s'. agenerate (template question (content (passages ! i))) 1024
                   (snd (run_all (map (get_verbatim_extract_async agenerate template question)
                                   (take i passages)) s)) = (Inr r, s')
                 \<and> content (docs ! i) = strip (message r))
         \<and> (content (docs ! i) = [] \<or>
            \<not> isspace (hd (content (docs ! i))) \<and> \<not> isspace (last (content (docs ! i))))"
proof -
  let ?f = "get_verbatim_extract_async agenerate template question"
  let ?outs = "extract_outcomes agenerate template question passages s"
  let ?docs = "map (\<lambda>(e, m). \<lparr>content = e, metadata = m\<rparr>)
                 (zip (results ?outs) (map metadata passages))"
  have len: "length (results ?outs) = length passages"
    using assms(1) by (simp add: length_results length_extract_outcomes)
  have res: "fst (get_verbatim_extracts agenerate template order question passages s) = Inr ?docs"
    using assms(1) by (rule gve_success)
  have c: "content (?docs ! i) = results ?outs ! i" using len assms(2) by simp
  have "map Inr (results ?outs) ! i = ?outs ! i" using assms(1) by (simp add: results_all_Inr)
  then have "?outs ! i = Inr (results ?outs ! i)" using len assms(2) by simp
  moreover have "?outs ! i = fst (?f (passages ! i) (snd (run_all (map ?f (take i passages)) s)))"
    unfolding extract_outcomes_def using assms(2) by (rule run_all_nth)
  ultimately have "fst (?f (passages ! i) (snd (run_all (map ?f (take i passages)) s)))
                     = Inr (content (?docs ! i))" using c by simp
  from gvea_Inr [OF this] obtain r s' where
    r: "agenerate (template question (content (passages ! i))) 1024
          (snd (run_all (map ?f (take i passages)) s)) = (Inr r, s')"
       "content (?docs ! i) = strip (message r)" by blast
  have "content (?docs ! i) = [] \<or>
        \<not> isspace (hd (content (?docs ! i))) \<and> \<not> isspace (last (content (?docs ! i)))"
    using r(2) strip_hd strip_last by metis
  with res r show ?thesis by blast
qed

theorem get_verbatim_extracts_content_stripped_witness:
  "message (projr (fst (fact_model (mock_template (py ''q'') (content (three_passages ! 1))) 1024 1)))
     = [32] @ py ''fact-2'' @ [10]
   \<and> (\<exists>docs. fst (get_verbatim_extracts fact_model mock_template [] (py ''q'')
                     three_passages 0) = Inr docs
        \<and> content (docs ! 1) = py ''fact-2'')"
proof -
  have h: "\<forall>out \<in> set (extract_outcomes fact_model mock_template (py ''q'') three_passages 0).
             \<not> isl out"
    by (simp add: fact_outcomes)
  have n: "(1::nat) < length three_passages" by (simp add: three_passages_def)
  have st: "snd (run_all (map (get_verbatim_extract_async fact_model mock_template (py ''q''))
                 (take 1 three_passages)) 0) = 1"
    by (simp add: get_verbatim_extract_async_def example_defs)
  have m: "message (projr (fst (fact_model p 1024 1))) = [32] @ py ''fact-2'' @ [10]" for p
    by (simp add: example_defs py_def)
  from get_verbatim_extracts_content_stripped [OF h n, of "[]"] obtain docs r s' where
    d: "fst (get_verbatim_extracts fact_model mock_template [] (py ''q'') three_passages 0) = Inr docs"
       "fact_model (mock_template (py ''q'') (content (three_passages ! 1))) 1024
          (snd (run_all (map (get_verbatim_extract_async fact_model mock_template (py ''q''))
                 (take 1 three_passages)) 0)) = (Inr r, s')"
       "content (docs ! 1) = strip (message r)" by blast
  from d(2) have "strip (message r) = py ''fact-2''"
    unfolding st by (auto simp add: fact_model_def string_defs)
  with d(1,3) m show ?thesis by auto
qed

subsection \<open>The summary-answer composer\<close>

text \<open>
  Claim C3. When the passages render and the model returns a response whose stripped
  text contains the marker \<^verbatim>\<open>SOURCE:\<close>, \<open>get_summary_answer\<close> returns a
  Document. The stripped text splits as \<open>a\<close>, the marker, \<open>b\<close> with no occurrence of
  the marker starting before the end of \<open>a\<close> (the first occurrence), and for that
  split the content is \<open>a\<close> stripped and the \<^verbatim>\<open>source\<close> entry of the metadata is
  \<^verbatim>\<open>SOURCE: \<close> followed by \<open>b\<close> stripped.
\<close>

theorem get_summary_answer_with_marker:
  assumes "stringify_passages passages = Inr extracts"
    and "generate (template (py ''Question:'' @ question) extracts) 1024 s = (Inr r, s')"
    and "sublist (py ''SOURCE:'') (strip (message r))"
  shows "\<exists>doc. get_summary_answer generate template question passages s = (Inr doc, s')
           \<and> (\<exists>a b. strip (message r) = a @ py ''SOURCE:'' @ b
                    \<and> \<not> sublist (py ''SOURCE:'') (a @ butlast (py ''SOURCE:'')))
           \<and> (\<forall>a b. strip (message r) = a @ py ''SOURCE:'' @ b
                    \<and> \<not> sublist (py ''SOURCE:'') (a @ butlast (py ''SOURCE:''))
                  \<longrightarrow> content doc = strip a
                      \<and> metadata doc (py ''source'') = Some (Str (py ''SOURCE: '' @ strip b)))"
proof -
  from first_occurrence_exists [OF marker_ne assms(3)] obtain a b where
    ab: "strip (message r) = a @ py ''SOURCE:'' @ b"
        "\<not> sublist (py ''SOURCE:'') (a @ butlast (py ''SOURCE:''))" by blast
  let ?doc = "\<lparr>content = strip a,
               metadata = [py ''source'' \<mapsto> Str (py ''SOURCE: '' @ strip b),
                           py ''cached'' \<mapsto> Bool (cached r)]\<rparr>"
  have sp: "split1 (strip (message r)) (py ''SOURCE:'') = Inr [a, b]"
    using split1_found [OF marker_ne ab(2)] ab(1) by simp
  have res: "get_summary_answer generate template question passages s = (Inr ?doc, s')"
    using assms(1,2) sp by (simp add: get_summary_answer_def)
  have uniq: "content ?doc = strip a' \<and>
              metadata ?doc (py ''source'') = Some (Str (py ''SOURCE: '' @ strip b'))"
    if "strip (message r) = a' @ py ''SOURCE:'' @ b'"
       "\<not> sublist (py ''SOURCE:'') (a' @ butlast (py ''SOURCE:''))" for a' b'
  proof -
    have "split1 (strip (message r)) (py ''SOURCE:'') = Inr [a', b']"
      using split1_found [OF marker_ne that(2)] that(1) by simp
    with sp have "a' = a" "b' = b" by simp_all
    then show ?thesis by (simp add: py_def)
  qed
  from res ab uniq show ?thesis by blast
qed

theorem get_summary_answer_with_marker_witness:
  "sublist (py ''SOURCE:'') (strip (py ''...answer text...SOURCE: Doc1, Doc2''))
   \<and> (\<exists>doc. get_summary_answer (const_model (py ''...answer text...SOURCE: Doc1, Doc2''))
               mock_template (py ''q'') two_passages 0 = (Inr doc, 1)
        \<and> content doc = py ''...answer text...''
        \<and> metadata doc (py ''source'') = Some (Str (py ''SOURCE: Doc1, Doc2'')))"
proof -
  let ?msg = "py ''...answer text...SOURCE: Doc1, Doc2''"
  obtain extracts where e: "stringify_passages two_passages = Inr extracts"
    using two_passages_render by blast
  have g: "const_model ?msg (mock_template (py ''Question:'' @ py ''q'') extracts) 1024 0
             = (Inr \<lparr>message = ?msg, usage = 1, cached = False\<rparr>, 1)"
    by (simp add: const_model_def)
  have sub: "sublist (py ''SOURCE:'') (strip ?msg)"
    unfolding answer_text_stripped by (rule sublist_appendI)
  have sub': "sublist (py ''SOURCE:'')
                (strip (message \<lparr>message = ?msg, usage = 1, cached = False\<rparr>))"
    using sub by simp
  from get_summary_answer_with_marker
         [where generate = "const_model ?msg" and template = mock_template
            and question = "py ''q''", OF e g sub'] obtain doc where
    d: "get_summary_answer (const_model ?msg) mock_template (py ''q'') two_passages 0 = (Inr doc, 1)"
       "\<forall>a b. strip ?msg = a @ py ''SOURCE:'' @ b
                \<and> \<not> sublist (py ''SOURCE:'') (a @ butlast (py ''SOURCE:''))
              \<longrightarrow> content doc = strip a
                  \<and> metadata doc (py ''source'') = Some (Str (py ''SOURCE: '' @ strip b))"
    by auto
  from d(2) answer_text_stripped answer_text_first
  have "content doc = strip (py ''...answer text...'')
        \<and> metadata doc (py ''source'') = Some (Str (py ''SOURCE: '' @ strip (py '' Doc1, Doc2'')))"
    by blast
  then have "content doc = py ''...answer text...''
        \<and> metadata doc (py ''source'') = Some (Str (py ''SOURCE: Doc1, Doc2''))"
    by (simp add: string_defs)
  with sub d(1) show ?thesis by blast
qed

text \<open>
  Claim C4. When the passages render and the model returns a response whose stripped
  text does not contain the marker \<^verbatim>\<open>SOURCE:\<close>, \<open>get_summary_answer\<close> returns a
  Document whose content is the whole stripped text and whose \<^verbatim>\<open>source\<close> entry
  is the literal \<^verbatim>\<open>SOURCE: \<close>, which is not the empty string.
\<close>

theorem get_summary_answer_without_marker:
  assumes "stringify_passages passages = Inr extracts"
    and "generate (template (py ''Question:'' @ question) extracts) 1024 s = (Inr r, s')"
    and "\<not> sublist (py ''SOURCE:'') (strip (message r))"
  shows "\<exists>doc. get_summary_answer generate template question passages s = (Inr doc, s')
           \<and> content doc = strip (message r)
           \<and> metadata doc (py ''source'') = Some (Str (py ''SOURCE: ''))
           \<and> py ''SOURCE: '' \<noteq> []"
  using assms split1_absent [OF marker_ne assms(3)]
  by (simp add: get_summary_answer_def py_def)

theorem get_summary_answer_without_marker_witness:
  "strip (py ''  I do not know. '' @ [10]) = py ''I do not know.''
   \<and> (\<exists>doc. get_summary_answer (const_model (py ''  I do not know. '' @ [10]))
               mock_template (py ''q'') two_passages 0 = (Inr doc, 1)
        \<and> content doc = py ''I do not know.''
        \<and> metadata doc (py ''source'') = Some (Str (py ''SOURCE: '')))"
proof -
  let ?msg = "py ''  I do not know. '' @ [10]"
  obtain extracts where e: "stringify_passages two_passages = Inr extracts"
    using two_passages_render by blast
  have g: "const_model ?msg (mock_template (py ''Question:'' @ py ''q'') extracts) 1024 0
             = (Inr \<lparr>message = ?msg, usage = 1, cached = False\<rparr>, 1)"
    by (simp add: const_model_def)
  have "\<not> sublist (py ''SOURCE:'') (py ''I do not know.'')"
    by (simp add: py_def sublist_Cons_right)
  then have n: "\<not> sublist (py ''SOURCE:'')
                   (strip (message \<lparr>message = ?msg, usage = 1, cached = False\<rparr>))"
    by (simp add: plain_answer_stripped)
  from get_summary_answer_without_marker
         [where generate = "const_model ?msg" and template = mock_template
            and question = "py ''q''", OF e g n] plain_answer_stripped
  show ?thesis by auto
qed

text \<open>
  Claim C8. When some passage has no \<^verbatim>\<open>source\<close> key in its metadata,
  \<open>get_summary_answer\<close> fails with the lookup error \<^verbatim>\<open>KeyError('source')\<close>,
  raised while the passages are rendered: the model is not called and its state is
  the one before.
\<close>

theorem get_summary_answer_missing_source:
  assumes "\<exists>p \<in> set passages. metadata p (py ''source'') = None"
  shows "get_summary_answer generate template question passages s
           = (Inl (KeyError (py ''source'')), s)"
  using stringify_each_missing [OF assms]
  by (simp add: get_summary_answer_def stringify_passages_def)

theorem get_summary_answer_missing_source_witness:
  "metadata (three_passages ! 2) (py ''source'') = None
   \<and> get_summary_answer (const_model (py ''answer'')) mock_template (py ''q'') three_passages 0
       = (Inl (KeyError (py ''source'')), 0)"
proof -
  have m: "metadata (three_passages ! 2) (py ''source'') = None"
    by (simp add: three_passages_def py_def)
  have "three_passages ! 2 \<in> set three_passages" by (simp add: three_passages_def)
  with m have h: "\<exists>p \<in> set three_passages. metadata p (py ''source'') = None" by blast
  from get_summary_answer_missing_source [OF h] m show ?thesis by simp
qed

subsection \<open>Construction\<close>

text \<open>
  Claim C7. \<open>create\<close> looks the provider tag \<^verbatim>\<open>config.type\<close> up in the registry,
  whose only key is \<^verbatim>\<open>openai\<close>, and falls back to \<open>OpenAIGPT\<close>: for every
  configuration, with a registered tag or not, the class chosen is \<open>OpenAIGPT\<close> and
  the result is that class constructed from the configuration. The lookup itself never
  fails.
\<close>

theorem create_default_for_every_tag:
  "create_cls OpenAIGPT config = OpenAIGPT
   \<and> create OpenAIGPT construct config = construct OpenAIGPT config
   \<and> (map_of (registry OpenAIGPT) (type config) = None) = (type config \<noteq> py ''openai'')"
  by (simp add: create_def create_cls_def dict_get_def registry_def)

theorem create_default_for_every_tag_witness:
  "type \<lparr>type = py ''cohere'', max_tokens = 1024, use_chat_for_completion = True,
        stream = False, cache_config = \<lparr>hostname = py ''localhost'', port = 6379\<rparr>\<rparr>
     \<noteq> py ''openai''
   \<and> create (1::nat) (\<lambda>cls config. (cls, type config))
       \<lparr>type = py ''cohere'', max_tokens = 1024, use_chat_for_completion = True,
        stream = False, cache_config = \<lparr>hostname = py ''localhost'', port = 6379\<rparr>\<rparr>
     = (1, py ''cohere'')"
  using create_default_for_every_tag
    [of "1::nat" "\<lparr>type = py ''cohere'', max_tokens = 1024, use_chat_for_completion = True,
        stream = False, cache_config = \<lparr>hostname = py ''localhost'', port = 6379\<rparr>\<rparr>"
        "\<lambda>cls config. (cls, type config)"]
  by (simp add: py_def)

subsection \<open>The streaming scope\<close>

text \<open>
  Claim C5. After a \<open>StreamingIfAllowed\<close> scope the stream flag of the model is the one
  it had before entry, whether the block returned or raised and whatever the block
  did to the flag; the rest of the model instance is as the block left it.
\<close>

theorem streaming_scope_restores_flag:
  "get_stream (snd (with_StreamingIfAllowed settings_stream d body llm)) = get_stream llm
   \<and> snd (with_StreamingIfAllowed settings_stream d body llm)
       = (snd (body (snd (enter settings_stream (init d) llm))))\<lparr>stream_flag := stream_flag llm\<rparr>"
  by (simp add: with_StreamingIfAllowed_def enter_def exit_def init_def set_stream_def
      get_stream_def split: prod.splits)

theorem streaming_scope_restores_flag_witness:
  "with_StreamingIfAllowed True True
     (\<lambda>llm. (Inl (Raised (py ''boom'')) :: error + nat, llm)) \<lparr>stream_flag = False\<rparr>
     = (Inl (Raised (py ''boom'')), \<lparr>stream_flag = False\<rparr>)
   \<and> with_StreamingIfAllowed True True
     (\<lambda>llm. (Inr (7::nat), llm\<lparr>stream_flag := True\<rparr>)) \<lparr>stream_flag = False\<rparr>
     = (Inr 7, \<lparr>stream_flag = False\<rparr>)"
proof -
  let ?raising = "\<lambda>llm :: llm_instance. (Inl (Raised (py ''boom'')) :: error + nat, llm)"
  let ?returning = "\<lambda>llm :: llm_instance. (Inr (7::nat) :: error + nat, llm\<lparr>stream_flag := True\<rparr>)"
  have r1: "fst (with_StreamingIfAllowed True True ?raising \<lparr>stream_flag = False\<rparr>)
              = Inl (Raised (py ''boom''))"
    by (simp add: with_StreamingIfAllowed_def enter_def exit_def init_def set_stream_def)
  have r2: "fst (with_StreamingIfAllowed True True ?returning \<lparr>stream_flag = False\<rparr>) = Inr 7"
    by (simp add: with_StreamingIfAllowed_def enter_def exit_def init_def set_stream_def)
  have s1: "snd (with_StreamingIfAllowed True True ?raising \<lparr>stream_flag = False\<rparr>)
              = \<lparr>stream_flag = False\<rparr>"
    using streaming_scope_restores_flag [of True True ?raising "\<lparr>stream_flag = False\<rparr>"]
    by (simp add: get_stream_def)
  have s2: "snd (with_StreamingIfAllowed True True ?returning \<lparr>stream_flag = False\<rparr>)
              = \<lparr>stream_flag = False\<rparr>"
    using streaming_scope_restores_flag [of True True ?returning "\<lparr>stream_flag = False\<rparr>"]
    by (simp add: get_stream_def)
  from r1 s1 r2 s2 show ?thesis by (simp add: prod_eq_iff)
qed

text \<open>
  Claim C6. On entry the stream flag of the model becomes the conjunction of the global
  \<^verbatim>\<open>settings.stream\<close> and the desired flag \<open>d\<close>, and the block runs on that
  model instance; with streaming disabled globally and \<open>d\<close> true the flag inside
  the scope is false. The scope remembers the flag's previous value.
\<close>

theorem streaming_scope_effective_flag:
  "get_stream (snd (enter settings_stream (init d) llm)) = (settings_stream \<and> d)
   \<and> get_stream (snd (enter False (init True) llm)) = False
   \<and> old_stream (fst (enter settings_stream (init d) llm)) = Some (get_stream llm)
   \<and> fst (with_StreamingIfAllowed settings_stream d body llm)
       = fst (body (snd (enter settings_stream (init d) llm)))"
  by (simp add: with_StreamingIfAllowed_def enter_def exit_def init_def set_stream_def
      get_stream_def split: prod.splits)

theorem streaming_scope_effective_flag_witness:
  "fst (with_StreamingIfAllowed False True (\<lambda>llm. (Inr (get_stream llm), llm))
         \<lparr>stream_flag = True\<rparr>) = Inr False
   \<and> fst (with_StreamingIfAllowed True True (\<lambda>llm. (Inr (get_stream llm), llm))
         \<lparr>stream_flag = False\<rparr>) = Inr True"
  using streaming_scope_effective_flag [of False True "\<lparr>stream_flag = True\<rparr>"
      "\<lambda>llm. (Inr (get_stream llm), llm)"]
    streaming_scope_effective_flag [of True True "\<lparr>stream_flag = False\<rparr>"
      "\<lambda>llm. (Inr (get_stream llm), llm)"]
  by simp

end
